theory Spec2Isabelle
  imports Complex_Main "HOL-Library.Log_Nat"
begin

section \<open>Vantage micro-safety layer: the detection-to-alert path of \<open>Vantage.py\<close>\<close>

text \<open>
  The script filters the detections of one camera frame against a hazard table, estimates
  a distance from the width of the bounding box, draws every accepted hazard and speaks a
  warning when the hazard is close and the audio cooldown has passed.

  Python floats are modelled as \<open>real\<close>: comparisons and divisions are exact, except
  in \<open>classify_float\<close>, which rounds every float operation of the confidence filter as
  IEEE 754 does; only there does rounding decide an outcome. Python integers are
  \<open>int\<close>. The external collaborators (camera, YOLO model, OpenCV window,
  wall clock) are inputs of the model: a frame arrives as its width and its list of boxes,
  and every box carries the value \<open>time.time()\<close> would return while that box is handled.
\<close>

subsection \<open>Configuration\<close>

definition CONFIDENCE_THRESHOLD :: real where
  "CONFIDENCE_THRESHOLD = 55 / 100"

definition AUDIO_COOLDOWN :: real where
  "AUDIO_COOLDOWN = 2"

definition HAZARD_MAP :: "int \<rightharpoonup> string" where
  "HAZARD_MAP = map_of
     [(0, ''Pedestrian (Dynamic)''),
      (1, ''Cyclist (Dynamic)''),
      (2, ''Car (Dynamic)''),
      (3, ''Bike (Dynamic)''),
      (5, ''Bus (Dynamic)''),
      (7, ''Truck (Dynamic)''),
      (13, ''Verticality (Bench/Step)''),
      (56, ''Obstacle (Chair)'')]"

subsection \<open>State\<close>

datatype error = ZeroDivisionError

text \<open>One OpenCV drawing call on the frame: a rectangle with its two corners, colour
  and thickness, or a text with its position and colour. The text of \<open>putText\<close> is the
  f-string \<open>{label} | {distance}m\<close>, kept as its two components; the font, the scale 0.6
  and the thickness 2 are the same in every call and are left out.\<close>

datatype draw =
    Rectangle "int \<times> int" "int \<times> int" "nat \<times> nat \<times> nat" nat
  | PutText "string \<times> real" "int \<times> int" "nat \<times> nat \<times> nat"

text \<open>\<open>last_audio_time\<close> is the field of \<open>VantageSystem\<close>; \<open>stdout\<close> holds the printed
  lines and \<open>screen\<close> the frames shown by \<open>imshow\<close>, each as the list of its drawings.\<close>

record vstate =
  last_audio_time :: real
  stdout :: "string list"
  screen :: "draw list list"

text \<open>\<open>__init__\<close>: the timer starts at 0.\<close>

definition init :: vstate where
  "init = \<lparr> last_audio_time = 0,
            stdout = [''[INIT] Loading Vantage Logic Core...'',
                      ''[SUCCESS] System Active. Press 'Q' to shutdown.''],
            screen = [] \<rparr>"

text \<open>A detection as the model yields it: confidence, class and corner coordinates are
  floats.\<close>

record box =
  conf :: real
  cls :: real
  xyxy :: "real \<times> real \<times> real \<times> real"

subsection \<open>Python primitives\<close>

text \<open>\<open>int(x)\<close> on a float truncates toward zero.\<close>

definition py_int :: "real \<Rightarrow> int" where
  "py_int x = (if 0 \<le> x then \<lfloor>x\<rfloor> else \<lceil>x\<rceil>)"

text \<open>True division raises on a zero divisor.\<close>

definition py_truediv :: "real \<Rightarrow> real \<Rightarrow> error + real" where
  "py_truediv a b = (if b = 0 then Inl ZeroDivisionError else Inr (a / b))"

subsection \<open>The audio trigger\<close>

definition warning :: "string \<Rightarrow> string" where
  "warning message =
     [CHR 0x0A] @ ''>>> [BONE CONDUCTION AUDIO]: 'Warning! '' @ message @ '' ahead.' <<<''
       @ [CHR 0x0A]"

text \<open>\<open>trigger_bone_conduction\<close>; \<open>current_time\<close> is the reading of \<open>time.time()\<close>.\<close>

definition trigger_bone_conduction :: "real \<Rightarrow> string \<Rightarrow> vstate \<Rightarrow> vstate" where
  "trigger_bone_conduction current_time message self =
     (if current_time - last_audio_time self > AUDIO_COOLDOWN
      then self\<lparr> stdout := stdout self @ [warning message],
                 last_audio_time := current_time \<rparr>
      else self)"

text \<open>The function returns nothing; what a caller can observe of a call is whether the
  warning line was printed. This is the boolean the specification calls the result of
  \<open>should_alert\<close>.\<close>

definition spoke :: "vstate \<Rightarrow> vstate \<Rightarrow> bool" where
  "spoke self self' = (length (stdout self) < length (stdout self'))"

definition should_alert :: "real \<Rightarrow> string \<Rightarrow> vstate \<Rightarrow> bool" where
  "should_alert now message self = spoke self (trigger_bone_conduction now message self)"

subsection \<open>The distance heuristic\<close>

definition estimate_distance :: "real \<Rightarrow> real \<Rightarrow> error + real" where
  "estimate_distance box_width frame_width =
     (case py_truediv box_width frame_width of
        Inl e \<Rightarrow> Inl e
      | Inr perceived_width \<Rightarrow>
          if perceived_width > 8 / 10 then Inr (5 / 10)
          else if perceived_width > 4 / 10 then Inr (15 / 10)
          else Inr 3)"

subsection \<open>The filter of the detection loop\<close>

text \<open>Lines 101 to 109 of \<open>run\<close>, in exact arithmetic: the confidence is rounded up to
  two decimals, compared with the threshold, and the class is looked up in the table.\<close>

definition classify :: "int \<Rightarrow> real \<Rightarrow> string option" where
  "classify cls_id raw_conf =
     (let c = real_of_int \<lceil>raw_conf * 100\<rceil> / 100
      in if c > CONFIDENCE_THRESHOLD \<and> HAZARD_MAP cls_id \<noteq> None
         then HAZARD_MAP cls_id else None)"

subsection \<open>The filter in floating-point arithmetic\<close>

text \<open>Rounding of a real to the nearest integer, ties to the even one.\<close>

definition rne :: "real \<Rightarrow> int" where
  "rne y =
     (let f = \<lfloor>y\<rfloor>; d = y - real_of_int f
      in if d < 1 / 2 then f
         else if 1 / 2 < d then f + 1
         else if even f then f else f + 1)"

text \<open>The binary exponent of a positive real: \<open>2 powi expo x \<le> x < 2 powi (expo x + 1)\<close>.\<close>

definition expo :: "real \<Rightarrow> int" where
  "expo x = (if 1 \<le> x then bitlen \<lfloor>x\<rfloor> - 1 else - bitlen (\<lceil>1 / x\<rceil> - 1))"

text \<open>Rounding to the nearest binary float with \<open>p\<close> significant bits, ties to even:
  \<open>p = 24\<close> is float32, the type of the tensor \<open>box.conf\<close>, and \<open>p = 53\<close> is the
  Python float. The exponent is unbounded: a confidence in [0, 1] times 100 neither
  overflows nor rounds to zero.\<close>

definition round_pos :: "nat \<Rightarrow> real \<Rightarrow> real" where
  "round_pos p x = (let u = 2 powi (expo x - int p + 1) in real_of_int (rne (x / u)) * u)"

definition round_float :: "nat \<Rightarrow> real \<Rightarrow> real" where
  "round_float p x =
     (if x = 0 then 0 else if 0 < x then round_pos p x else - round_pos p (- x))"

text \<open>The literal \<open>0.55\<close> of the script is the double nearest to 55/100.\<close>

definition THRESHOLD_double :: real where
  "THRESHOLD_double = round_float 53 (55 / 100)"

text \<open>Lines 101 to 109 again, with every float operation rounded: the product
  \<open>box.conf[0] * 100\<close> in the format of the confidence (\<open>p\<close> bits), \<open>math.ceil\<close> to a
  Python integer, the true division by 100 and the literal threshold in doubles.\<close>

definition classify_float :: "nat \<Rightarrow> int \<Rightarrow> real \<Rightarrow> string option" where
  "classify_float p cls_id raw_conf =
     (let product = round_float p (raw_conf * 100);
          c = round_float 53 (real_of_int \<lceil>product\<rceil> / 100)
      in if c > THRESHOLD_double \<and> HAZARD_MAP cls_id \<noteq> None
         then HAZARD_MAP cls_id else None)"

subsection \<open>One box, one frame, the capture loop\<close>

definition colour :: "real \<Rightarrow> nat \<times> nat \<times> nat" where
  "colour distance = (if distance < 2 then (0, 0, 255) else (0, 255, 0))"

definition annotate :: "string \<Rightarrow> real \<Rightarrow> int \<times> int \<times> int \<times> int \<Rightarrow> draw list" where
  "annotate label distance c =
     (case c of (x1, y1, x2, y2) \<Rightarrow>
        [Rectangle (x1, y1) (x2, y2) (colour distance) 3,
         PutText (label, distance) (x1, y1 - 10) (colour distance)])"

definition corners :: "box \<Rightarrow> int \<times> int \<times> int \<times> int" where
  "corners b = (case xyxy b of (x1, y1, x2, y2) \<Rightarrow> (py_int x1, py_int y1, py_int x2, py_int y2))"

definition obj_width :: "box \<Rightarrow> int" where
  "obj_width b = (case corners b of (x1, y1, x2, y2) \<Rightarrow> x2 - x1)"

text \<open>The body of the inner \<open>for\<close> loop. \<open>frame\<close> is the list of drawings made on the
  current frame so far, \<open>clock\<close> the time the trigger would read.\<close>

definition process_box ::
  "int \<Rightarrow> real \<Rightarrow> box \<Rightarrow> draw list \<times> vstate \<Rightarrow> error + (draw list \<times> vstate)" where
  "process_box width clock b s =
     (case s of (frame, self) \<Rightarrow>
        (case classify (py_int (cls b)) (conf b) of
           None \<Rightarrow> Inr (frame, self)
         | Some label \<Rightarrow>
             (case estimate_distance (real_of_int (obj_width b)) (real_of_int width) of
                Inl e \<Rightarrow> Inl e
              | Inr distance \<Rightarrow>
                  Inr (frame @ annotate label distance (corners b),
                       if distance < 2 then trigger_bone_conduction clock label self
                       else self))))"

fun for_boxes ::
  "int \<Rightarrow> (real \<times> box) list \<Rightarrow> draw list \<times> vstate \<Rightarrow> error + (draw list \<times> vstate)" where
  "for_boxes width [] s = Inr s"
| "for_boxes width (tb # boxes) s =
     (case process_box width (fst tb) (snd tb) s of
        Inl e \<Rightarrow> Inl e
      | Inr s' \<Rightarrow> for_boxes width boxes s')"

fun for_results ::
  "int \<Rightarrow> (real \<times> box) list list \<Rightarrow> draw list \<times> vstate \<Rightarrow> error + (draw list \<times> vstate)" where
  "for_results width [] s = Inr s"
| "for_results width (r # results) s =
     (case for_boxes width r s of
        Inl e \<Rightarrow> Inl e
      | Inr s' \<Rightarrow> for_results width results s')"

text \<open>One iteration of \<open>while True\<close> consumes one camera read: whether it succeeded, the
  frame width, the model's results and whether \<open>q\<close> is pressed after the frame is
  shown.\<close>

record capture =
  cap_ok :: bool
  cap_width :: int
  cap_results :: "(real \<times> box) list list"
  cap_q :: bool

datatype outcome = Crashed error | Stopped vstate | Running vstate

fun run :: "capture list \<Rightarrow> vstate \<Rightarrow> outcome" where
  "run [] self = Running self"
| "run (c # cs) self =
     (if \<not> cap_ok c
      then Stopped (self\<lparr> stdout := stdout self @ [''[ERROR] Camera disconnected.''] \<rparr>)
      else
        (case for_results (cap_width c) (cap_results c) ([], self) of
           Inl e \<Rightarrow> Crashed e
         | Inr (frame, self') \<Rightarrow>
             (let shown = self'\<lparr> screen := screen self' @ [frame] \<rparr>
              in if cap_q c
                 then Stopped (shown\<lparr> stdout := stdout shown
                                          @ [''[STOP] Shutting down Vantage System...''] \<rparr>)
                 else run cs shown)))"

subsection \<open>Observations on a frame\<close>

text \<open>A sequence of calls of the trigger, each with its clock reading and its message:
  the list of their observable results, in call order.\<close>

fun outcomes :: "(real \<times> string) list \<Rightarrow> vstate \<Rightarrow> bool list" where
  "outcomes [] self = []"
| "outcomes (c # cs) self =
     should_alert (fst c) (snd c) self
       # outcomes cs (trigger_bone_conduction (fst c) (snd c) self)"

text \<open>What the loop body computes for a box before it draws: the label and the distance
  of a box that passes the filter.\<close>

definition hazard :: "int \<Rightarrow> box \<Rightarrow> (string \<times> real) option" where
  "hazard width b =
     (case classify (py_int (cls b)) (conf b) of
        None \<Rightarrow> None
      | Some label \<Rightarrow>
          (case estimate_distance (real_of_int (obj_width b)) (real_of_int width) of
             Inl e \<Rightarrow> None
           | Inr distance \<Rightarrow> Some (label, distance)))"

text \<open>The drawings a box adds to the frame, and whether it reaches the trigger.\<close>

definition drawn :: "int \<Rightarrow> box \<Rightarrow> draw list" where
  "drawn width b =
     (case hazard width b of
        None \<Rightarrow> []
      | Some h \<Rightarrow> annotate (fst h) (snd h) (corners b))"

definition eligible :: "int \<Rightarrow> box \<Rightarrow> bool" where
  "eligible width b = (case hazard width b of None \<Rightarrow> False | Some h \<Rightarrow> snd h < 2)"

definition label_of :: "box \<Rightarrow> string" where
  "label_of b = (case classify (py_int (cls b)) (conf b) of None \<Rightarrow> [] | Some label \<Rightarrow> label)"

subsection \<open>Vocabulary of the specification\<close>

text \<open>The specification names the three results of the distance heuristic as bands, in
  the words of the comments of \<open>estimate_distance\<close>; each band stands for the number of
  meters the function returns.\<close>

datatype DistanceBand = VeryClose | Close | Safe

fun meters :: "DistanceBand \<Rightarrow> real" where
  "meters VeryClose = 5 / 10"
| "meters Close = 15 / 10"
| "meters Safe = 3"

text \<open>The band order \<open>VeryClose < Close < Safe\<close>.\<close>

fun band_rank :: "DistanceBand \<Rightarrow> nat" where
  "band_rank VeryClose = 0"
| "band_rank Close = 1"
| "band_rank Safe = 2"

text \<open>The specification's rule for the band of a ratio, and its rule for eligibility,
  both in its own words.\<close>

definition spec_band :: "real \<Rightarrow> DistanceBand" where
  "spec_band ratio =
     (if ratio > 8 / 10 then VeryClose else if ratio > 4 / 10 then Close else Safe)"

definition spec_alert_eligible :: "DistanceBand \<Rightarrow> bool" where
  "spec_alert_eligible band = (band = VeryClose \<or> band = Close)"

subsection \<open>Sample detections\<close>

text \<open>A box of height 100 whose left edge is at 0: confidence, class and right edge are
  given.\<close>

definition sample_box :: "real \<Rightarrow> real \<Rightarrow> real \<Rightarrow> box" where
  "sample_box c k x2 = \<lparr> conf = c, cls = k, xyxy = (0, 0, x2, 100) \<rparr>"

section \<open>The audio cooldown\<close>

lemma should_alert_iff:
  "should_alert now message self = (now - last_audio_time self > AUDIO_COOLDOWN)"
  by (simp add: should_alert_def spoke_def trigger_bone_conduction_def)

text \<open>
  Claim C1. For every clock reading \<open>now\<close> and every state, the trigger speaks, and sets
  \<open>last_audio_time\<close> to \<open>now\<close>, exactly when \<open>now - last_audio_time\<close> is strictly greater
  than the cooldown. A difference equal to the cooldown (or smaller, or negative) does not
  speak, and a call that does not speak leaves the whole state as it was.
\<close>

theorem should_alert_strict_cooldown:
  "should_alert now message self = (now - last_audio_time self > AUDIO_COOLDOWN)
   \<and> (should_alert now message self \<longrightarrow>
        last_audio_time (trigger_bone_conduction now message self) = now)
   \<and> (now - last_audio_time self = AUDIO_COOLDOWN \<longrightarrow> \<not> should_alert now message self)
   \<and> (\<not> should_alert now message self \<longrightarrow>
        trigger_bone_conduction now message self = self)"
  by (simp add: should_alert_def spoke_def trigger_bone_conduction_def)

theorem should_alert_strict_cooldown_witness:
  "should_alert 3 ''Car (Dynamic)'' init
   \<and> last_audio_time (trigger_bone_conduction 3 ''Car (Dynamic)'' init) = 3
   \<and> 2 - last_audio_time init = AUDIO_COOLDOWN
   \<and> \<not> should_alert 2 ''Car (Dynamic)'' init
   \<and> trigger_bone_conduction 2 ''Car (Dynamic)'' init = init"
  using should_alert_strict_cooldown [of 3 "''Car (Dynamic)''" init]
        should_alert_strict_cooldown [of 2 "''Car (Dynamic)''" init]
  by (simp add: init_def AUDIO_COOLDOWN_def)

lemma last_audio_time_mono:
  "last_audio_time self \<le> last_audio_time (trigger_bone_conduction now message self)"
  by (simp add: trigger_bone_conduction_def AUDIO_COOLDOWN_def)

lemma outcomes_length: "length (outcomes calls self) = length calls"
  by (induction calls arbitrary: self) auto

lemma fired_after_timer:
  "j < length calls \<Longrightarrow> outcomes calls self ! j \<Longrightarrow>
   fst (calls ! j) - last_audio_time self > AUDIO_COOLDOWN"
proof (induction calls arbitrary: self j)
  case Nil
  then show ?case by simp
next
  case (Cons c cs)
  show ?case
  proof (cases j)
    case 0
    with Cons.prems show ?thesis by (simp add: should_alert_iff)
  next
    case (Suc k)
    with Cons.prems have "fst (cs ! k) - last_audio_time (trigger_bone_conduction (fst c) (snd c) self) > AUDIO_COOLDOWN"
      using Cons.IH [of k "trigger_bone_conduction (fst c) (snd c) self"] by simp
    with last_audio_time_mono [of self "fst c" "snd c"] Suc show ?thesis by simp
  qed
qed

lemma fired_pair_apart:
  "i < j \<Longrightarrow> j < length calls \<Longrightarrow> outcomes calls self ! i \<Longrightarrow> outcomes calls self ! j \<Longrightarrow>
   fst (calls ! j) - fst (calls ! i) > AUDIO_COOLDOWN"
proof (induction calls arbitrary: self i j)
  case Nil
  then show ?case by simp
next
  case (Cons c cs)
  from Cons.prems obtain k where j: "j = Suc k" by (cases j) auto
  show ?case
  proof (cases i)
    case 0
    with Cons.prems have fired: "should_alert (fst c) (snd c) self" by simp
    then have "last_audio_time (trigger_bone_conduction (fst c) (snd c) self) = fst c"
      by (simp add: should_alert_iff trigger_bone_conduction_def)
    moreover have "fst (cs ! k) - last_audio_time (trigger_bone_conduction (fst c) (snd c) self) > AUDIO_COOLDOWN"
      using Cons.prems j fired_after_timer [of k cs "trigger_bone_conduction (fst c) (snd c) self"] by simp
    ultimately show ?thesis using 0 j by simp
  next
    case (Suc i')
    with Cons.prems j show ?thesis
      using Cons.IH [of i' k "trigger_bone_conduction (fst c) (snd c) self"] by simp
  qed
qed

text \<open>
  Claim C3. In a sequence of trigger calls with non-decreasing clock readings, started in
  the initial state, any two calls that both speak have readings strictly more than the
  cooldown apart, whatever their messages: there is one timer for all hazard labels.
  (The helper \<open>fired_pair_apart\<close> shows that neither the order of the readings nor the
  starting state matters.)
\<close>

theorem alerts_more_than_cooldown_apart:
  assumes "sorted (map fst calls)"
    and "i < j" and "j < length calls"
    and "outcomes calls init ! i" and "outcomes calls init ! j"
  shows "fst (calls ! j) - fst (calls ! i) > AUDIO_COOLDOWN"
  using assms(2-5) by (rule fired_pair_apart)

theorem alerts_more_than_cooldown_apart_witness:
  "sorted (map fst [(10, ''Car (Dynamic)''), (12, ''Bus (Dynamic)''), (12.5::real, ''Pedestrian (Dynamic)'')])
   \<and> outcomes [(10, ''Car (Dynamic)''), (12, ''Bus (Dynamic)''), (12.5, ''Pedestrian (Dynamic)'')] init
       = [True, False, True]
   \<and> fst ([(10, ''Car (Dynamic)''), (12, ''Bus (Dynamic)''), (12.5::real, ''Pedestrian (Dynamic)'')] ! 2)
       - fst ([(10, ''Car (Dynamic)''), (12, ''Bus (Dynamic)''), (12.5::real, ''Pedestrian (Dynamic)'')] ! 0)
       > AUDIO_COOLDOWN"
proof -
  let ?calls = "[(10, ''Car (Dynamic)''), (12, ''Bus (Dynamic)''), (12.5::real, ''Pedestrian (Dynamic)'')]"
  have s: "sorted (map fst ?calls)" by simp
  have o: "outcomes ?calls init = [True, False, True]"
    by (simp add: should_alert_iff trigger_bone_conduction_def init_def AUDIO_COOLDOWN_def)
  have "fst (?calls ! 2) - fst (?calls ! 0) > AUDIO_COOLDOWN"
    using alerts_more_than_cooldown_apart [of ?calls 0 2] s o by simp
  with s o show ?thesis by blast
qed

section \<open>The hazard filter\<close>

lemma rounding_keeps_threshold:
  "(real_of_int \<lceil>c * 100\<rceil> / 100 > CONFIDENCE_THRESHOLD) = (c > CONFIDENCE_THRESHOLD)"
proof -
  have "(real_of_int \<lceil>c * 100\<rceil> / 100 > 55 / 100) = (real_of_int \<lceil>c * 100\<rceil> > 55)"
    by simp
  also have "\<dots> = (\<lceil>c * 100\<rceil> > 55)"
    by linarith
  also have "\<dots> = (c * 100 > 55)"
    using less_ceiling_iff [of 55 "c * 100"] by simp
  also have "\<dots> = (c > 55 / 100)"
    by (simp add: mult.commute)
  finally show ?thesis by (simp add: CONFIDENCE_THRESHOLD_def)
qed

lemma classify_unrounded:
  "classify cls_id c = (if c > CONFIDENCE_THRESHOLD then HAZARD_MAP cls_id else None)"
  using rounding_keeps_threshold [of c] by (auto simp: classify_def Let_def)

lemma dom_HAZARD_MAP: "dom HAZARD_MAP = {0, 1, 2, 3, 5, 7, 13, 56}"
  by (auto simp: HAZARD_MAP_def dom_def split: if_splits)

text \<open>
  Claim C10. Rounding the confidence up to two decimals before the comparison changes no
  outcome: the rounded value exceeds the threshold 0.55 exactly when the raw confidence
  does, so the filter is a strict comparison of the raw confidence with the threshold.
\<close>

theorem ceil_rounding_preserves_filter:
  "(real_of_int \<lceil>c * 100\<rceil> / 100 > CONFIDENCE_THRESHOLD) = (c > CONFIDENCE_THRESHOLD)
   \<and> classify cls_id c = (if c > CONFIDENCE_THRESHOLD then HAZARD_MAP cls_id else None)"
  using rounding_keeps_threshold [of c] classify_unrounded [of cls_id c] by simp

theorem ceil_rounding_preserves_filter_witness:
  "real_of_int \<lceil>(551 / 1000 :: real) * 100\<rceil> / 100 = 56 / 100
   \<and> (551 / 1000 :: real) > CONFIDENCE_THRESHOLD
   \<and> classify 0 (551 / 1000) = Some ''Pedestrian (Dynamic)''
   \<and> classify 0 (55 / 100) = None"
  using ceil_rounding_preserves_filter [of "551 / 1000" 0]
        ceil_rounding_preserves_filter [of "55 / 100" 0]
  by (simp add: CONFIDENCE_THRESHOLD_def HAZARD_MAP_def)

text \<open>In exact arithmetic the filter is the strict comparison of the raw confidence with
  0.55, together with the table lookup.\<close>

lemma classify_exact_arithmetic:
  "(classify cls_id c = Some category
      \<longleftrightarrow> c > CONFIDENCE_THRESHOLD \<and> HAZARD_MAP cls_id = Some category)
   \<and> (classify cls_id c = None
      \<longleftrightarrow> c \<le> CONFIDENCE_THRESHOLD \<or> cls_id \<notin> dom HAZARD_MAP)"
  by (auto simp: classify_unrounded domIff)

section \<open>The hazard filter in floating-point arithmetic\<close>

lemma rne_of_int: "rne (real_of_int n) = n"
  by (simp add: rne_def)

lemma rne_bounds: "\<lfloor>y\<rfloor> \<le> rne y \<and> rne y \<le> \<lfloor>y\<rfloor> + 1"
  by (simp add: rne_def Let_def)

lemma rne_mono: "x \<le> y \<Longrightarrow> rne x \<le> rne y"
proof -
  assume xy: "x \<le> y"
  then have f: "\<lfloor>x\<rfloor> \<le> \<lfloor>y\<rfloor>" by (rule floor_mono)
  show ?thesis
  proof (cases "\<lfloor>x\<rfloor> = \<lfloor>y\<rfloor>")
    case True
    with xy show ?thesis by (auto simp: rne_def Let_def)
  next
    case False
    with f have "\<lfloor>x\<rfloor> + 1 \<le> \<lfloor>y\<rfloor>" by simp
    with rne_bounds [of x] rne_bounds [of y] show ?thesis by linarith
  qed
qed

lemma rne_gt_even:
  assumes "even n"
  shows "n < rne y \<longleftrightarrow> real_of_int n + 1 / 2 < y"
proof
  assume gt: "real_of_int n + 1 / 2 < y"
  then have "n \<le> \<lfloor>y\<rfloor>" by linarith
  then consider "\<lfloor>y\<rfloor> = n" | "n + 1 \<le> \<lfloor>y\<rfloor>" by linarith
  then show "n < rne y"
  proof cases
    case 1
    with gt show ?thesis by (simp add: rne_def Let_def)
  next
    case 2
    with rne_bounds [of y] show ?thesis by linarith
  qed
next
  assume r: "n < rne y"
  show "real_of_int n + 1 / 2 < y"
  proof (rule ccontr)
    assume "\<not> real_of_int n + 1 / 2 < y"
    then have le: "y \<le> real_of_int n + 1 / 2" by simp
    then have "\<lfloor>y\<rfloor> \<le> n" by linarith
    then consider "\<lfloor>y\<rfloor> = n" | "\<lfloor>y\<rfloor> + 1 \<le> n" by linarith
    then have "rne y \<le> n"
    proof cases
      case 1
      with le assms show ?thesis by (auto simp: rne_def Let_def)
    next
      case 2
      with rne_bounds [of y] show ?thesis by linarith
    qed
    with r show False by simp
  qed
qed

lemma expo_bounds:
  assumes "0 < x"
  shows "2 powi expo x \<le> x \<and> x < 2 powi (expo x + 1)"
proof (cases "1 \<le> x")
  case True
  define n where "n = \<lfloor>x\<rfloor>"
  define b where "b = bitlen n"
  from True have n: "0 < n" unfolding n_def by linarith
  from bitlen_bounds [OF n] have lo: "2 ^ nat (b - 1) \<le> n" and hi: "n < 2 ^ nat b"
    unfolding b_def by simp_all
  from n have b1: "1 \<le> b" unfolding b_def using bitlen_eq_zero_iff [of n] bitlen_nonneg [of n]
    by linarith
  have e: "expo x = b - 1" using True by (simp add: expo_def b_def n_def)
  have "(2::real) powi (b - 1) = 2 ^ nat (b - 1)" using b1 by (simp add: power_int_def)
  also have "\<dots> = real_of_int (2 ^ nat (b - 1))" by simp
  also have "\<dots> \<le> real_of_int n" using lo by linarith
  also have "\<dots> \<le> x" unfolding n_def by simp
  finally have 1: "2 powi (b - 1) \<le> x" .
  have "x < real_of_int n + 1" unfolding n_def by linarith
  also have "\<dots> = real_of_int (n + 1)" by simp
  also have "\<dots> \<le> real_of_int (2 ^ nat b)" using hi by linarith
  also have "\<dots> = 2 powi b" using b1 by (simp add: power_int_def)
  finally have 2: "x < 2 powi b" .
  from 1 2 e show ?thesis by simp
next
  case False
  define y where "y = 1 / x"
  define m where "m = \<lceil>y\<rceil> - 1"
  define b where "b = bitlen m"
  from False assms have y1: "1 < y" unfolding y_def by simp
  then have m: "0 < m" unfolding m_def by linarith
  have my: "real_of_int m < y" "y \<le> real_of_int m + 1" unfolding m_def by linarith+
  from bitlen_bounds [OF m] have lo: "2 ^ nat (b - 1) \<le> m" and hi: "m < 2 ^ nat b"
    unfolding b_def by simp_all
  from m have b1: "1 \<le> b" unfolding b_def using bitlen_eq_zero_iff [of m] bitlen_nonneg [of m]
    by linarith
  have e: "expo x = - b" using False by (simp add: expo_def b_def m_def y_def)
  have "y \<le> real_of_int (m + 1)" using my by simp
  also have "\<dots> \<le> real_of_int (2 ^ nat b)" using hi by linarith
  also have "\<dots> = 2 ^ nat b" by simp
  finally have "1 / x \<le> 2 ^ nat b" unfolding y_def .
  then have "1 / 2 ^ nat b \<le> x" using assms by (simp add: field_simps)
  moreover have "(2::real) powi (- b) = 1 / 2 ^ nat b"
    using b1 by (simp add: power_int_def field_simps)
  ultimately have 1: "2 powi (- b) \<le> x" by simp
  have "(2::real) ^ nat (b - 1) = real_of_int (2 ^ nat (b - 1))" by simp
  also have "\<dots> \<le> real_of_int m" using lo by linarith
  also have "\<dots> < 1 / x" using my unfolding y_def by simp
  finally have "x < 1 / 2 ^ nat (b - 1)" using assms by (simp add: field_simps)
  moreover have "(2::real) powi (- b + 1) = 1 / 2 ^ nat (b - 1)"
    using b1 by (auto simp: power_int_def field_simps)
  ultimately have 2: "x < 2 powi (- b + 1)" by simp
  from 1 2 e show ?thesis by simp
qed

lemma pow2_less_imp: "(2::real) powi a < 2 powi b \<Longrightarrow> a < b"
  using power_int_increasing [of b a "2::real"] by (cases "a < b") auto

lemma expo_unique:
  assumes "0 < x" and "2 powi e \<le> x" and "x < 2 powi (e + 1)"
  shows "expo x = e"
proof -
  from expo_bounds [OF assms(1)] have lo: "2 powi expo x \<le> x" and hi: "x < 2 powi (expo x + 1)"
    by simp_all
  have "(2::real) powi e < 2 powi (expo x + 1)" using assms(2) hi by linarith
  then have 1: "e < expo x + 1" by (rule pow2_less_imp)
  have "(2::real) powi expo x < 2 powi (e + 1)" using lo assms(3) by linarith
  then have 2: "expo x < e + 1" by (rule pow2_less_imp)
  from 1 2 show ?thesis by simp
qed


lemma pow2_pos: "0 < (2::real) powi e"
  by (simp add: zero_less_power_int)

lemma round_pos_binade:
  assumes "0 < x" and "1 \<le> p"
  shows "2 powi expo x \<le> round_pos p x \<and> round_pos p x \<le> 2 powi (expo x + 1)"
proof -
  define e where "e = expo x"
  define u :: real where "u = 2 powi (e - int p + 1)"
  have u: "0 < u" unfolding u_def by (rule pow2_pos)
  from expo_bounds [OF assms(1)] have lo: "2 powi e \<le> x" and hi: "x < 2 powi (e + 1)"
    unfolding e_def by simp_all
  have lo_u: "(2::real) powi e = real_of_int (2 ^ (p - 1)) * u"
  proof -
    have "(2::real) powi e = 2 powi (int (p - 1) + (e - int p + 1))"
      using assms(2) by (simp add: of_nat_diff)
    also have "\<dots> = 2 powi int (p - 1) * 2 powi (e - int p + 1)"
      by (rule power_int_add) simp
    finally show ?thesis by (simp add: u_def)
  qed
  have hi_u: "(2::real) powi (e + 1) = real_of_int (2 ^ p) * u"
  proof -
    have "(2::real) powi (e + 1) = 2 powi (int p + (e - int p + 1))"
      by simp
    also have "\<dots> = 2 powi int p * 2 powi (e - int p + 1)"
      by (rule power_int_add) simp
    finally show ?thesis by (simp add: u_def)
  qed
  have "real_of_int (2 ^ (p - 1)) \<le> x / u"
    using lo lo_u u by (simp add: field_simps)
  then have "rne (real_of_int (2 ^ (p - 1))) \<le> rne (x / u)" by (rule rne_mono)
  then have 1: "2 ^ (p - 1) \<le> rne (x / u)" by (simp only: rne_of_int)
  have "x / u \<le> real_of_int (2 ^ p)"
    using hi hi_u u by (simp add: field_simps)
  then have "rne (x / u) \<le> rne (real_of_int (2 ^ p))" by (rule rne_mono)
  then have 2: "rne (x / u) \<le> 2 ^ p" by (simp only: rne_of_int)
  have r: "round_pos p x = real_of_int (rne (x / u)) * u"
    by (simp add: round_pos_def Let_def u_def e_def)
  from 1 have "real_of_int (2 ^ (p - 1)) * u \<le> real_of_int (rne (x / u)) * u"
    using u by (simp only: mult_le_cancel_right_pos of_int_le_iff)
  moreover from 2 have "real_of_int (rne (x / u)) * u \<le> real_of_int (2 ^ p) * u"
    using u by (simp only: mult_le_cancel_right_pos of_int_le_iff)
  ultimately show ?thesis
    unfolding r e_def [symmetric] lo_u hi_u by simp
qed

lemma round_pos_gt_0:
  assumes "1 \<le> p" and "0 < x"
  shows "0 < round_pos p x"
proof -
  have "0 < (2::real) powi expo x" by (rule pow2_pos)
  with round_pos_binade [OF assms(2,1)] show ?thesis by linarith
qed

lemma round_float_nonpos:
  assumes "1 \<le> p" and "x \<le> 0"
  shows "round_float p x \<le> 0"
proof (cases "x = 0")
  case True
  then show ?thesis by (simp add: round_float_def)
next
  case False
  with assms(2) have "0 < - x" by simp
  from round_pos_gt_0 [OF assms(1) this] False assms(2) show ?thesis
    by (simp add: round_float_def)
qed

lemma round_float_below:
  assumes "1 \<le> p" and "0 < x" and "x < 2 powi e"
  shows "round_float p x \<le> 2 powi e"
proof -
  from expo_bounds [OF assms(2)] assms(3) have "(2::real) powi expo x < 2 powi e" by linarith
  then have "expo x + 1 \<le> e" using pow2_less_imp [of "expo x" e] by simp
  then have "(2::real) powi (expo x + 1) \<le> 2 powi e"
    by (intro power_int_increasing) simp_all
  with round_pos_binade [OF assms(2,1)] assms(2) show ?thesis
    by (simp add: round_float_def)
qed

lemma round_float_above:
  assumes "1 \<le> p" and "2 powi e \<le> x"
  shows "2 powi e \<le> round_float p x"
proof -
  have x: "0 < x" using assms(2) pow2_pos [of e] by linarith
  from expo_bounds [OF x] assms(2) have "(2::real) powi e < 2 powi (expo x + 1)" by linarith
  then have "e \<le> expo x" using pow2_less_imp [of e "expo x + 1"] by simp
  then have "(2::real) powi e \<le> 2 powi expo x"
    by (intro power_int_increasing) simp_all
  with round_pos_binade [OF x assms(1)] x show ?thesis
    by (simp add: round_float_def)
qed

lemma round_pos_binade5:
  assumes "7 \<le> p" and "32 \<le> x" and "x < 64"
  shows "55 < round_pos p x \<longleftrightarrow> 55 + 2 powi (5 - int p) < x"
proof -
  have x: "0 < x" using assms(2) by simp
  have e: "expo x = 5"
    using assms(2,3) by (intro expo_unique [OF x]) simp_all
  define u :: real where "u = 2 powi (6 - int p)"
  have u: "0 < u" unfolding u_def by (rule pow2_pos)
  define N :: int where "N = 55 * 2 ^ (p - 6)"
  have ev: "even N" using assms(1) unfolding N_def by simp
  have "(1::real) = 2 powi (int (p - 6) + (6 - int p))"
    using assms(1) by (simp add: of_nat_diff)
  also have "\<dots> = 2 powi int (p - 6) * 2 powi (6 - int p)"
    by (rule power_int_add) simp
  finally have one: "2 ^ (p - 6) * u = 1" by (simp add: u_def)
  then have Nu: "real_of_int N * u = 55" by (simp add: N_def)
  have "(2::real) powi (6 - int p) = 2 powi (1 + (5 - int p))" by simp
  also have "\<dots> = 2 powi 1 * 2 powi (5 - int p)"
    by (rule power_int_add) simp
  finally have half: "u / 2 = 2 powi (5 - int p)" by (simp add: u_def)
  have r: "round_pos p x = real_of_int (rne (x / u)) * u"
    by (simp add: round_pos_def Let_def u_def e)
  have "55 < round_pos p x \<longleftrightarrow> real_of_int N * u < real_of_int (rne (x / u)) * u"
    by (simp only: r Nu)
  also have "\<dots> \<longleftrightarrow> N < rne (x / u)"
    using u by (simp only: mult_less_cancel_right_pos of_int_less_iff)
  also have "\<dots> \<longleftrightarrow> real_of_int N + 1 / 2 < x / u"
    by (rule rne_gt_even [OF ev])
  also have "\<dots> \<longleftrightarrow> (real_of_int N + 1 / 2) * u < x"
    using u by (simp add: pos_less_divide_eq)
  also have "(real_of_int N + 1 / 2) * u = 55 + 2 powi (5 - int p)"
    using Nu half by (simp add: algebra_simps)
  finally show ?thesis .
qed

lemma round_float_gt_55:
  assumes "7 \<le> p"
  shows "55 < round_float p x \<longleftrightarrow> 55 + 2 powi (5 - int p) < x"
proof -
  have p1: "1 \<le> p" using assms by simp
  have small: "(2::real) powi (5 - int p) \<le> 1"
    using power_int_increasing [of "5 - int p" 0 "2::real"] assms by simp
  have pos: "0 < (2::real) powi (5 - int p)" by (rule pow2_pos)
  consider "x \<le> 0" | "0 < x" "x < 32" | "32 \<le> x" "x < 64" | "64 \<le> x" by linarith
  then show ?thesis
  proof cases
    case 1
    from round_float_nonpos [OF p1 1] have "\<not> 55 < round_float p x" by linarith
    moreover from 1 pos have "\<not> 55 + 2 powi (5 - int p) < x" by linarith
    ultimately show ?thesis by blast
  next
    case 2
    have "round_float p x \<le> 2 powi 5"
      using 2 by (intro round_float_below [OF p1]) simp_all
    then have "\<not> 55 < round_float p x" by simp
    moreover from 2 pos have "\<not> 55 + 2 powi (5 - int p) < x" by linarith
    ultimately show ?thesis by blast
  next
    case 3
    with round_pos_binade5 [OF assms 3] show ?thesis by (simp add: round_float_def)
  next
    case 4
    have "2 powi 6 \<le> round_float p x"
      using 4 by (intro round_float_above [OF p1]) simp
    then have "55 < round_float p x" by simp
    moreover from 4 small have "55 + 2 powi (5 - int p) < x" by linarith
    ultimately show ?thesis by blast
  qed
qed

lemma double_055: "round_float 53 (55 / 100) = 4953959590107546 / 2 ^ 53"
  by code_simp

lemma round_pos_half_one:
  assumes "1 / 2 \<le> y" and "y < 1"
  shows "round_pos 53 y = real_of_int (rne (y * 2 ^ 53)) / 2 ^ 53"
proof -
  have y: "0 < y" using assms(1) by simp
  have e: "expo y = - 1"
    using assms by (intro expo_unique [OF y]) simp_all
  show ?thesis by (simp add: round_pos_def Let_def e)
qed

lemma hundredths_gt_threshold:
  "round_float 53 (55 / 100) < round_float 53 (real_of_int k / 100) \<longleftrightarrow> 55 < k"
proof -
  define y where "y = real_of_int k / 100"
  have D: "0 < round_float 53 (55 / 100)" "round_float 53 (55 / 100) \<ge> 1 / 2"
    "round_float 53 (55 / 100) < 1"
    unfolding double_055 by simp_all
  consider "k \<le> 0" | "0 < k" "k < 50" | "50 \<le> k" "k \<le> 55" | "56 \<le> k" "k < 100" | "100 \<le> k"
    by linarith
  then show ?thesis
  proof cases
    case 1
    then have "y \<le> 0" unfolding y_def by simp
    from round_float_nonpos [OF _ this, of 53] D(1) 1 show ?thesis
      unfolding y_def by simp
  next
    case 2
    then have "0 < y" "y < 2 powi (- 1)" unfolding y_def by simp_all
    from round_float_below [OF _ this, of 53] D(2) 2 show ?thesis
      unfolding y_def by simp
  next
    case 3
    then have y: "1 / 2 \<le> y" "y < 1" "y \<le> 55 / 100" unfolding y_def by simp_all
    have "rne (y * 2 ^ 53) \<le> rne (55 / 100 * 2 ^ 53)"
      using y(3) by (intro rne_mono) simp
    also have "rne (55 / 100 * 2 ^ 53) = 4953959590107546"
      by code_simp
    finally have "round_pos 53 y \<le> 4953959590107546 / 2 ^ 53"
      unfolding round_pos_half_one [OF y(1,2)] by (simp add: divide_right_mono)
    with y 3 show ?thesis
      unfolding y_def [symmetric] double_055 by (simp add: round_float_def)
  next
    case 4
    then have y: "1 / 2 \<le> y" "y < 1" "56 / 100 \<le> y" unfolding y_def by simp_all
    have "rne (56 / 100 * 2 ^ 53) = 5044031582654956"
      by code_simp
    moreover have "rne (56 / 100 * 2 ^ 53) \<le> rne (y * 2 ^ 53)"
      using y(3) by (intro rne_mono) simp
    ultimately have "5044031582654956 \<le> rne (y * 2 ^ 53)" by simp
    then have "5044031582654956 / 2 ^ 53 \<le> round_pos 53 y"
      unfolding round_pos_half_one [OF y(1,2)] by (simp add: divide_right_mono)
    with y 4 show ?thesis
      unfolding y_def [symmetric] double_055 by (simp add: round_float_def)
  next
    case 5
    then have "2 powi 0 \<le> y" unfolding y_def by simp
    from round_float_above [OF _ this, of 53] D(3) 5 show ?thesis
      unfolding y_def by simp
  qed
qed


lemma classify_float_char:
  assumes "7 \<le> p"
  shows "classify_float p cls_id c
           = (if 55 + 2 powi (5 - int p) < c * 100 then HAZARD_MAP cls_id else None)"
proof -
  have "THRESHOLD_double < round_float 53 (real_of_int \<lceil>round_float p (c * 100)\<rceil> / 100)
          \<longleftrightarrow> 55 < \<lceil>round_float p (c * 100)\<rceil>"
    unfolding THRESHOLD_double_def by (rule hundredths_gt_threshold)
  also have "\<dots> \<longleftrightarrow> 55 < round_float p (c * 100)"
    using less_ceiling_iff [of 55 "round_float p (c * 100)"] by simp
  also have "\<dots> \<longleftrightarrow> 55 + 2 powi (5 - int p) < c * 100"
    by (rule round_float_gt_55 [OF assms])
  finally show ?thesis
    by (auto simp: classify_float_def Let_def)
qed

lemma half_ulp_window:
  fixes c :: real
  assumes "7 \<le> p"
  shows "c \<le> 55 / 100 \<Longrightarrow> \<not> 55 + 2 powi (5 - int p) < c * 100"
    and "56 / 100 \<le> c \<Longrightarrow> 55 + 2 powi (5 - int p) < c * 100"
proof -
  have le1: "(2::real) powi (5 - int p) \<le> 1 / 4"
    using power_int_increasing [of "5 - int p" "- 2" "2::real"] assms by simp
  have pos: "0 < (2::real) powi (5 - int p)" by (rule pow2_pos)
  show "c \<le> 55 / 100 \<Longrightarrow> \<not> 55 + 2 powi (5 - int p) < c * 100"
    using pos by linarith
  show "56 / 100 \<le> c \<Longrightarrow> 55 + 2 powi (5 - int p) < c * 100"
    using le1 by linarith
qed

lemma classify_float_agrees:
  assumes "7 \<le> p" and "c \<le> 55 / 100 \<or> 56 / 100 \<le> c"
  shows "classify_float p cls_id c = classify cls_id c"
proof -
  from assms(2) have "55 + 2 powi (5 - int p) < c * 100 \<longleftrightarrow> 55 / 100 < c"
  proof
    assume c: "c \<le> 55 / 100"
    from half_ulp_window(1) [OF assms(1) c] c show ?thesis by linarith
  next
    assume c: "56 / 100 \<le> c"
    from half_ulp_window(2) [OF assms(1) c] c show ?thesis by linarith
  qed
  then show ?thesis
    by (simp only: classify_float_char [OF assms(1)] classify_unrounded CONFIDENCE_THRESHOLD_def)
qed

text \<open>
  Claim C4 says that the filter yields a label exactly when the confidence is strictly
  greater than the threshold and the class is one of the 8 keys, and nothing when the
  confidence is at most the threshold, the threshold itself included. In the float
  arithmetic of the script neither direction holds at the boundary. The float32 nearest to
  0.55 is greater than the threshold (the double nearest to 0.55), yet its float32 product
  with 100 is exactly 55, so the car is rejected. A double confidence equal to the
  threshold has the product 55.00000000000001, which \<open>math.ceil\<close> takes to 56, so
  the car is accepted.
\<close>

theorem classify_boundary_counterexample:
  "HAZARD_MAP 2 = Some ''Car (Dynamic)''
   \<and> round_float 24 (55 / 100) = 9227469 / 16777216
   \<and> THRESHOLD_double < 9227469 / 16777216
   \<and> classify_float 24 2 (9227469 / 16777216) = None
   \<and> classify_float 53 2 THRESHOLD_double = Some ''Car (Dynamic)''"
  by code_simp

text \<open>
  Claim C4, amended. With a confidence held in a float of \<open>p\<close> significant bits (24 for
  the float32 tensor of the detector, 53 for a Python float), the filter yields the label
  of the class exactly when the class is one of the 8 keys of the hazard table and 100
  times the confidence exceeds 55 by more than half a unit in the last place of the
  product, which is \<open>2 powi (5 - p)\<close>; otherwise it yields nothing. So every confidence of
  at most 55/100 is rejected and every confidence of at least 56/100 with a class in the
  table is accepted, whatever the format; a class outside the table is rejected whatever
  the confidence.
\<close>

theorem classify_float_iff:
  assumes "7 \<le> p"
  shows "(classify_float p cls_id c = Some category
            \<longleftrightarrow> 55 + 2 powi (5 - int p) < c * 100 \<and> HAZARD_MAP cls_id = Some category)
       \<and> (classify_float p cls_id c = None
            \<longleftrightarrow> c * 100 \<le> 55 + 2 powi (5 - int p) \<or> cls_id \<notin> dom HAZARD_MAP)
       \<and> (c \<le> 55 / 100 \<longrightarrow> classify_float p cls_id c = None)
       \<and> (56 / 100 \<le> c \<longrightarrow> classify_float p cls_id c = HAZARD_MAP cls_id)
       \<and> dom HAZARD_MAP = {0, 1, 2, 3, 5, 7, 13, 56}
       \<and> card (dom HAZARD_MAP) = 8"
proof -
  have 1: "classify_float p cls_id c = Some category
            \<longleftrightarrow> 55 + 2 powi (5 - int p) < c * 100 \<and> HAZARD_MAP cls_id = Some category"
    by (simp add: classify_float_char [OF assms])
  have 2: "classify_float p cls_id c = None
            \<longleftrightarrow> c * 100 \<le> 55 + 2 powi (5 - int p) \<or> cls_id \<notin> dom HAZARD_MAP"
    by (auto simp: classify_float_char [OF assms] domIff)
  have 3: "c \<le> 55 / 100 \<longrightarrow> classify_float p cls_id c = None"
    using half_ulp_window(1) [OF assms, of c] by (simp add: classify_float_char [OF assms])
  have 4: "56 / 100 \<le> c \<longrightarrow> classify_float p cls_id c = HAZARD_MAP cls_id"
    using half_ulp_window(2) [OF assms, of c] by (simp add: classify_float_char [OF assms])
  have 5: "card (dom HAZARD_MAP) = 8"
    by (simp add: dom_HAZARD_MAP)
  from 1 2 3 4 5 dom_HAZARD_MAP show ?thesis by blast
qed

theorem classify_float_iff_witness:
  "(7::nat) \<le> 24 \<and> (7::nat) \<le> 53
   \<and> classify_float 24 2 (7 / 8) = Some ''Car (Dynamic)''
   \<and> classify_float 24 2 (9227469 / 16777216) = None
   \<and> classify_float 24 2 (9227470 / 16777216) = Some ''Car (Dynamic)''
   \<and> classify_float 53 2 (4953959590107546 / 2 ^ 53) = Some ''Car (Dynamic)''
   \<and> classify_float 53 2 (4953959590107545 / 2 ^ 53) = None
   \<and> classify_float 24 4 (7 / 8) = None
   \<and> (4::int) \<notin> dom HAZARD_MAP"
  using classify_float_iff [of 24 2 "7 / 8" "''Car (Dynamic)''"]
    classify_float_iff [of 24 2 "9227469 / 16777216"]
    classify_float_iff [of 24 2 "9227470 / 16777216" "''Car (Dynamic)''"]
    classify_float_iff [of 53 2 "4953959590107546 / 2 ^ 53" "''Car (Dynamic)''"]
    classify_float_iff [of 53 2 "4953959590107545 / 2 ^ 53"]
    classify_float_iff [of 24 4 "7 / 8"]
  by (simp add: HAZARD_MAP_def)

section \<open>The distance heuristic\<close>

lemma estimate_distance_band:
  "frame_width \<noteq> 0 \<Longrightarrow>
   estimate_distance box_width frame_width = Inr (meters (spec_band (box_width / frame_width)))"
  by (simp add: estimate_distance_def py_truediv_def spec_band_def)

text \<open>
  Claim C5. For a box width of at least 0 and a positive frame width, the heuristic
  returns the value of VeryClose when the ratio exceeds 0.8, of Close when the ratio is in
  (0.4, 0.8], and of Safe when it is at most 0.4. A ratio of exactly 0.8 is Close, of
  exactly 0.4 is Safe, a box at least as wide as the frame is VeryClose and a box of
  width 0 is Safe.
\<close>

theorem estimate_bands:
  assumes "0 \<le> box_width" and "0 < frame_width"
  shows "(box_width / frame_width > 8 / 10 \<longrightarrow>
            estimate_distance box_width frame_width = Inr (meters VeryClose))
       \<and> (4 / 10 < box_width / frame_width \<and> box_width / frame_width \<le> 8 / 10 \<longrightarrow>
            estimate_distance box_width frame_width = Inr (meters Close))
       \<and> (box_width / frame_width \<le> 4 / 10 \<longrightarrow>
            estimate_distance box_width frame_width = Inr (meters Safe))
       \<and> (box_width / frame_width = 8 / 10 \<longrightarrow>
            estimate_distance box_width frame_width = Inr (meters Close))
       \<and> (box_width / frame_width = 4 / 10 \<longrightarrow>
            estimate_distance box_width frame_width = Inr (meters Safe))
       \<and> (box_width \<ge> frame_width \<longrightarrow>
            estimate_distance box_width frame_width = Inr (meters VeryClose))
       \<and> (box_width = 0 \<longrightarrow>
            estimate_distance box_width frame_width = Inr (meters Safe))"
proof -
  define r where "r = box_width / frame_width"
  have e: "estimate_distance box_width frame_width = Inr (meters (spec_band r))"
    unfolding r_def using assms(2) by (simp add: estimate_distance_band)
  have one: "frame_width \<le> box_width \<longrightarrow> 1 \<le> r"
    unfolding r_def using assms(2) by simp
  have zero: "box_width = 0 \<longrightarrow> r = 0"
    unfolding r_def by simp
  have "(r > 8 / 10 \<longrightarrow> Inr (meters (spec_band r)) = (Inr (meters VeryClose) :: error + real))
       \<and> (4 / 10 < r \<and> r \<le> 8 / 10 \<longrightarrow>
            Inr (meters (spec_band r)) = (Inr (meters Close) :: error + real))
       \<and> (r \<le> 4 / 10 \<longrightarrow> Inr (meters (spec_band r)) = (Inr (meters Safe) :: error + real))
       \<and> (r = 8 / 10 \<longrightarrow> Inr (meters (spec_band r)) = (Inr (meters Close) :: error + real))
       \<and> (r = 4 / 10 \<longrightarrow> Inr (meters (spec_band r)) = (Inr (meters Safe) :: error + real))
       \<and> (box_width \<ge> frame_width \<longrightarrow>
            Inr (meters (spec_band r)) = (Inr (meters VeryClose) :: error + real))
       \<and> (box_width = 0 \<longrightarrow> Inr (meters (spec_band r)) = (Inr (meters Safe) :: error + real))"
    using one zero by (auto simp: spec_band_def)
  then show ?thesis
    by (simp only: e r_def)
qed

theorem estimate_bands_witness:
  "estimate_distance 1024 1280 = Inr (meters Close)
   \<and> estimate_distance 1025 1280 = Inr (meters VeryClose)
   \<and> estimate_distance 512 1280 = Inr (meters Safe)
   \<and> estimate_distance 513 1280 = Inr (meters Close)
   \<and> estimate_distance 1280 1280 = Inr (meters VeryClose)
   \<and> estimate_distance 2000 1280 = Inr (meters VeryClose)
   \<and> estimate_distance 0 1280 = Inr (meters Safe)"
  using estimate_bands [of 1024 1280] estimate_bands [of 1025 1280]
        estimate_bands [of 512 1280] estimate_bands [of 513 1280]
        estimate_bands [of 1280 1280] estimate_bands [of 2000 1280]
        estimate_bands [of 0 1280]
  by simp

lemma spec_band_mono:
  "r1 \<le> r2 \<Longrightarrow>
   band_rank (spec_band r2) \<le> band_rank (spec_band r1)
   \<and> meters (spec_band r2) \<le> meters (spec_band r1)"
  by (simp add: spec_band_def)

text \<open>
  Claim C9. For a positive frame width, a wider box never lands in a farther band: with
  \<open>w1 \<le> w2\<close> the band of \<open>w2\<close> is at most the band of \<open>w1\<close> in the order
  VeryClose, Close, Safe.
\<close>

theorem estimate_monotone:
  assumes "0 < frame_width" and "w1 \<le> w2"
  shows "\<exists>b1 b2. estimate_distance w1 frame_width = Inr (meters b1)
     \<and> estimate_distance w2 frame_width = Inr (meters b2)
     \<and> band_rank b2 \<le> band_rank b1 \<and> meters b2 \<le> meters b1"
proof -
  from assms have r: "w1 / frame_width \<le> w2 / frame_width"
    by (simp add: divide_right_mono)
  have fw: "frame_width \<noteq> 0" using assms(1) by simp
  show ?thesis
    using estimate_distance_band [OF fw, of w1] estimate_distance_band [OF fw, of w2]
      spec_band_mono [OF r]
    by blast
qed

theorem estimate_monotone_witness:
  "(0::real) < 1280 \<and> (500::real) \<le> 1100
   \<and> estimate_distance 500 1280 = Inr (meters Safe)
   \<and> estimate_distance 1100 1280 = Inr (meters VeryClose)
   \<and> band_rank VeryClose \<le> band_rank Safe \<and> meters VeryClose \<le> meters Safe"
  using estimate_monotone [of 1280 500 1100]
  by (simp add: estimate_distance_def py_truediv_def)

section \<open>The alert gate\<close>

lemma meters_gate: "(meters band < 2) = spec_alert_eligible band"
  by (cases band) (simp_all add: spec_alert_eligible_def)

text \<open>
  Claim C8. The gate of the loop compares the returned meters with 2.0. On each of the
  three bands this is the same as asking whether the band is VeryClose or Close, and for
  every accepted detection of a frame of positive width the loop body does what the
  band-based rule of the specification prescribes.
\<close>

theorem gate_by_meters_is_gate_by_band:
  assumes "0 < width" and "classify (py_int (cls b)) (conf b) = Some label"
  shows "(\<forall>band. (meters band < 2) = spec_alert_eligible band)
       \<and> (\<exists>band. band = spec_band (real_of_int (obj_width b) / real_of_int width)
            \<and> estimate_distance (real_of_int (obj_width b)) (real_of_int width)
                = Inr (meters band)
            \<and> eligible width b = spec_alert_eligible band
            \<and> process_box width clock b (frame, self)
                = Inr (frame @ annotate label (meters band) (corners b),
                       if spec_alert_eligible band
                       then trigger_bone_conduction clock label self else self))"
proof -
  from assms(1) have w: "real_of_int width \<noteq> 0" by simp
  show ?thesis
    using assms(2) estimate_distance_band [OF w, of "real_of_int (obj_width b)"]
    by (simp add: meters_gate process_box_def eligible_def hazard_def)
qed

theorem gate_by_meters_is_gate_by_band_witness:
  "(0::int) < 1280
   \<and> classify (py_int (cls (sample_box (9 / 10) 2 600))) (conf (sample_box (9 / 10) 2 600)) = Some ''Car (Dynamic)''
   \<and> spec_band (real_of_int (obj_width (sample_box (9 / 10) 2 600)) / real_of_int 1280) = Close
   \<and> eligible 1280 (sample_box (9 / 10) 2 600)
   \<and> process_box 1280 5 (sample_box (9 / 10) 2 600) ([], init)
       = Inr (annotate ''Car (Dynamic)'' (15 / 10) (0, 0, 600, 100),
              trigger_bone_conduction 5 ''Car (Dynamic)'' init)"
proof -
  have c: "classify (py_int (cls (sample_box (9 / 10) 2 600))) (conf (sample_box (9 / 10) 2 600)) = Some ''Car (Dynamic)''"
    by (simp add: sample_box_def py_int_def classify_def CONFIDENCE_THRESHOLD_def HAZARD_MAP_def)
  have w: "obj_width (sample_box (9 / 10) 2 600) = 600" "corners (sample_box (9 / 10) 2 600) = (0, 0, 600, 100)"
    by (simp_all add: obj_width_def corners_def sample_box_def py_int_def)
  show ?thesis
    using gate_by_meters_is_gate_by_band [of 1280 "sample_box (9 / 10) 2 600" "''Car (Dynamic)''" 5 "[]" init] c
    by (simp add: w spec_band_def spec_alert_eligible_def)
qed

section \<open>One frame\<close>

lemma process_box_hazard:
  assumes "width \<noteq> 0"
  shows "process_box width clock b (frame, self) =
     Inr (frame @ drawn width b,
          if eligible width b then trigger_bone_conduction clock (label_of b) self else self)"
proof -
  from assms have w: "real_of_int width \<noteq> 0" by simp
  show ?thesis
    using estimate_distance_band [OF w, of "real_of_int (obj_width b)"]
    by (simp add: process_box_def drawn_def eligible_def hazard_def label_of_def
          split: option.splits)
qed

lemma trigger_same_clock:
  "trigger_bone_conduction now m2 (trigger_bone_conduction now m1 self)
     = trigger_bone_conduction now m1 self"
  by (simp add: trigger_bone_conduction_def AUDIO_COOLDOWN_def)

lemma for_boxes_no_eligible:
  "width \<noteq> 0 \<Longrightarrow> \<forall>tb \<in> set tbs. \<not> eligible width (snd tb) \<Longrightarrow>
   for_boxes width tbs (frame, self) = Inr (frame @ concat (map (drawn width \<circ> snd) tbs), self)"
  by (induction tbs arbitrary: frame) (simp_all add: process_box_hazard)

lemma for_boxes_drawn:
  "width \<noteq> 0 \<Longrightarrow>
   \<exists>self'. for_boxes width tbs (frame, self)
     = Inr (frame @ concat (map (drawn width \<circ> snd) tbs), self')"
proof (induction tbs arbitrary: frame self)
  case Nil
  show ?case by simp
next
  case (Cons tb tbs)
  obtain self1 where step: "process_box width (fst tb) (snd tb) (frame, self)
      = Inr (frame @ drawn width (snd tb), self1)"
    using process_box_hazard [OF Cons.prems] by simp
  from Cons.IH [OF Cons.prems, of "frame @ drawn width (snd tb)" self1] step
  show ?case by simp
qed

lemma for_boxes_settled:
  "width \<noteq> 0 \<Longrightarrow>
   for_boxes width (map (Pair now) boxes) (frame, trigger_bone_conduction now m self)
     = Inr (frame @ concat (map (drawn width) boxes), trigger_bone_conduction now m self)"
  by (induction boxes arbitrary: frame) (simp_all add: process_box_hazard trigger_same_clock)

lemma for_boxes_shared_clock:
  "width \<noteq> 0 \<Longrightarrow>
   for_boxes width (map (Pair now) boxes) (frame, self)
     = Inr (frame @ concat (map (drawn width) boxes),
            case find (eligible width) boxes of
              None \<Rightarrow> self
            | Some b \<Rightarrow> trigger_bone_conduction now (label_of b) self)"
  by (induction boxes arbitrary: frame)
     (simp_all add: process_box_hazard for_boxes_settled)

lemma for_results_concat:
  "for_results width results s = for_boxes width (concat results) s"
proof (induction results arbitrary: s)
  case Nil
  show ?case by simp
next
  case (Cons r rs)
  have app: "\<And>xs ys s. for_boxes width (xs @ ys) s
      = (case for_boxes width xs s of Inl e \<Rightarrow> Inl e | Inr s' \<Rightarrow> for_boxes width ys s')"
  proof -
    fix xs ys s show "for_boxes width (xs @ ys) s
      = (case for_boxes width xs s of Inl e \<Rightarrow> Inl e | Inr s' \<Rightarrow> for_boxes width ys s')"
      by (induction xs arbitrary: s) (simp_all split: sum.splits)
  qed
  show ?case by (simp add: app Cons.IH split: sum.splits)
qed

lemma process_box_zero_width:
  "process_box 0 clock b (frame, self) =
     (if classify (py_int (cls b)) (conf b) = None then Inr (frame, self)
      else Inl ZeroDivisionError)"
  by (simp add: process_box_def estimate_distance_def py_truediv_def split: option.splits)

lemma for_boxes_zero_width:
  "\<exists>tb \<in> set tbs. classify (py_int (cls (snd tb))) (conf (snd tb)) \<noteq> None \<Longrightarrow>
   for_boxes 0 tbs (frame, self) = Inl ZeroDivisionError"
proof (induction tbs)
  case Nil
  then show ?case by simp
next
  case (Cons tb tbs)
  show ?case
  proof (cases "classify (py_int (cls (snd tb))) (conf (snd tb)) = None")
    case True
    with Cons.prems have "\<exists>tb \<in> set tbs. classify (py_int (cls (snd tb))) (conf (snd tb)) \<noteq> None"
      by auto
    with Cons.IH True show ?thesis
      by (simp add: process_box_zero_width)
  next
    case False
    then show ?thesis
      by (auto simp: process_box_zero_width)
  qed
qed

lemma for_boxes_zero_width_skip:
  "\<forall>tb \<in> set tbs. classify (py_int (cls (snd tb))) (conf (snd tb)) = None \<Longrightarrow>
   for_boxes 0 tbs (frame, self) = Inr (frame, self)"
  by (induction tbs) (simp_all add: process_box_zero_width)

lemma drawn_explicit:
  "drawn width b =
     (case hazard width b of
        None \<Rightarrow> []
      | Some h \<Rightarrow>
          (case corners b of (x1, y1, x2, y2) \<Rightarrow>
             [Rectangle (x1, y1) (x2, y2) (if snd h < 2 then (0, 0, 255) else (0, 255, 0)) 3,
              PutText h (x1, y1 - 10) (if snd h < 2 then (0, 0, 255) else (0, 255, 0))]))"
  by (simp add: drawn_def annotate_def colour_def split: option.splits prod.splits)

lemma shared_clock_list:
  "\<forall>tb \<in> set tbs. fst tb = now \<Longrightarrow> tbs = map (Pair now) (map snd tbs)"
  by (induction tbs) auto

text \<open>
  Claim C2. When every box of a frame is handled at the same clock reading \<open>now\<close> (the
  cooldown being the positive constant of the script), the frame prints at most one
  warning, and that warning carries the label of the first box in input order that passes
  the filter and is closer than 2 m. Every accepted box, the later ones included, gets
  its rectangle and its text on the frame, and no later box speaks or changes the timer.
  On a frame of width 0 nothing is printed at all: the frame raises at its first accepted
  box, or has none.
\<close>

theorem one_alert_per_frame:
  assumes "\<forall>tb \<in> set (concat results). fst tb = now"
  shows "(width \<noteq> 0 \<longrightarrow>
      (\<exists>frame self' alerts.
          for_results width results ([], self) = Inr (frame, self')
        \<and> frame = concat (map
            (\<lambda>b. case hazard width b of
                None \<Rightarrow> []
              | Some h \<Rightarrow>
                  (case corners b of (x1, y1, x2, y2) \<Rightarrow>
                     [Rectangle (x1, y1) (x2, y2)
                        (if snd h < 2 then (0, 0, 255) else (0, 255, 0)) 3,
                      PutText h (x1, y1 - 10)
                        (if snd h < 2 then (0, 0, 255) else (0, 255, 0))]))
            (map snd (concat results)))
        \<and> alerts = (case find (eligible width) (map snd (concat results)) of
                      None \<Rightarrow> []
                    | Some b \<Rightarrow>
                        if now - last_audio_time self > 2
                        then [[CHR 0x0A] @ ''>>> [BONE CONDUCTION AUDIO]: 'Warning! ''
                                @ label_of b @ '' ahead.' <<<'' @ [CHR 0x0A]]
                        else [])
        \<and> length alerts \<le> 1
        \<and> self' = self\<lparr> stdout := stdout self @ alerts,
                         last_audio_time :=
                           (if alerts = [] then last_audio_time self else now) \<rparr>))
   \<and> (width = 0 \<longrightarrow>
        for_results width results ([], self)
          = (if \<exists>tb \<in> set (concat results).
                  classify (py_int (cls (snd tb))) (conf (snd tb)) \<noteq> None
             then Inl ZeroDivisionError else Inr ([], self)))"
proof (cases "width = 0")
  case True
  have "for_results 0 results ([], self)
          = (if \<exists>tb \<in> set (concat results).
                  classify (py_int (cls (snd tb))) (conf (snd tb)) \<noteq> None
             then Inl ZeroDivisionError else Inr ([], self))"
    using for_boxes_zero_width [of "concat results" "[]" self]
      for_boxes_zero_width_skip [of "concat results" "[]" self]
    by (auto simp: for_results_concat)
  with True show ?thesis by simp
next
  case False
  let ?boxes = "map snd (concat results)"
  have tbs: "concat results = map (Pair now) ?boxes"
    using assms by (rule shared_clock_list)
  have "for_boxes width (concat results) ([], self)
      = Inr (concat (map (drawn width) ?boxes),
             case find (eligible width) ?boxes of
               None \<Rightarrow> self
             | Some b \<Rightarrow> trigger_bone_conduction now (label_of b) self)"
    using for_boxes_shared_clock [OF False, of now ?boxes "[]" self] tbs by simp
  then have run: "for_results width results ([], self)
      = Inr (concat (map (drawn width) ?boxes),
             case find (eligible width) ?boxes of
               None \<Rightarrow> self
             | Some b \<Rightarrow> trigger_bone_conduction now (label_of b) self)"
    by (simp add: for_results_concat)
  have draw: "concat (map (drawn width) ?boxes) = concat (map
            (\<lambda>b. case hazard width b of
                None \<Rightarrow> []
              | Some h \<Rightarrow>
                  (case corners b of (x1, y1, x2, y2) \<Rightarrow>
                     [Rectangle (x1, y1) (x2, y2)
                        (if snd h < 2 then (0, 0, 255) else (0, 255, 0)) 3,
                      PutText h (x1, y1 - 10)
                        (if snd h < 2 then (0, 0, 255) else (0, 255, 0))]))
            ?boxes)"
    using drawn_explicit [of width] by presburger
  show ?thesis
    unfolding run draw
    by (cases "find (eligible width) ?boxes")
       (simp_all add: False trigger_bone_conduction_def warning_def AUDIO_COOLDOWN_def)
qed


theorem one_alert_per_frame_witness:
  "map fst (concat [[(1000, sample_box (9 / 10) 2 1100)],
                     [(1000, sample_box (9 / 10) 0 1200)]]) = [1000::real, 1000]
   \<and> find (eligible 1280) [sample_box (9 / 10) 2 1100, sample_box (9 / 10) 0 1200]
       = Some (sample_box (9 / 10) 2 1100)
   \<and> eligible 1280 (sample_box (9 / 10) 0 1200)
   \<and> for_results 1280 [[(1000, sample_box (9 / 10) 2 1100)],
                        [(1000, sample_box (9 / 10) 0 1200)]] ([], init)
     = Inr ([Rectangle (0, 0) (1100, 100) (0, 0, 255) 3,
             PutText (''Car (Dynamic)'', 5 / 10) (0, - 10) (0, 0, 255),
             Rectangle (0, 0) (1200, 100) (0, 0, 255) 3,
             PutText (''Pedestrian (Dynamic)'', 5 / 10) (0, - 10) (0, 0, 255)],
            \<lparr> last_audio_time = 1000,
              stdout = [''[INIT] Loading Vantage Logic Core...'',
                        ''[SUCCESS] System Active. Press 'Q' to shutdown.'',
                        [CHR 0x0A] @ ''>>> [BONE CONDUCTION AUDIO]: 'Warning! Car (Dynamic) ahead.' <<<''
                          @ [CHR 0x0A]],
              screen = [] \<rparr>)
   \<and> for_results 0 [[(1000, sample_box (9 / 10) 2 1100)],
                     [(1000, sample_box (9 / 10) 0 1200)]] ([], init)
     = Inl ZeroDivisionError"
proof -
  have c: "classify (py_int (cls (sample_box (9 / 10) 2 1100))) (conf (sample_box (9 / 10) 2 1100))
             = Some ''Car (Dynamic)''"
          "classify (py_int (cls (sample_box (9 / 10) 0 1200))) (conf (sample_box (9 / 10) 0 1200))
             = Some ''Pedestrian (Dynamic)''"
    by (simp_all add: sample_box_def py_int_def classify_def CONFIDENCE_THRESHOLD_def
          HAZARD_MAP_def)
  have w: "obj_width (sample_box (9 / 10) 2 1100) = 1100"
          "corners (sample_box (9 / 10) 2 1100) = (0, 0, 1100, 100)"
          "obj_width (sample_box (9 / 10) 0 1200) = 1200"
          "corners (sample_box (9 / 10) 0 1200) = (0, 0, 1200, 100)"
    by (simp_all add: obj_width_def corners_def sample_box_def py_int_def)
  have h: "hazard 1280 (sample_box (9 / 10) 2 1100) = Some (''Car (Dynamic)'', 5 / 10)"
          "hazard 1280 (sample_box (9 / 10) 0 1200) = Some (''Pedestrian (Dynamic)'', 5 / 10)"
    by (simp_all add: hazard_def c w estimate_distance_def py_truediv_def)
  have a: "\<forall>tb \<in> set (concat [[(1000, sample_box (9 / 10) 2 1100)],
                           [(1000, sample_box (9 / 10) 0 1200)]]). fst tb = (1000::real)"
    by simp
  show ?thesis
    using one_alert_per_frame [OF a, of 1280 init] one_alert_per_frame [OF a, of 0 init]
    by (auto simp: eligible_def label_of_def h c w init_def)
qed

text \<open>
  The shared clock reading is needed for the first box to win. Here the timer stands at
  1000, the car is handled at 1001 and stays silent, and the pedestrian is handled at
  1002.5 and speaks.
\<close>

lemma later_box_speaks_on_later_reading:
  "for_results 1280 [[(1001, sample_box (9 / 10) 2 1100)],
                     [(10025 / 10, sample_box (9 / 10) 0 1200)]]
     ([], init\<lparr> last_audio_time := 1000 \<rparr>)
   = Inr ([Rectangle (0, 0) (1100, 100) (0, 0, 255) 3,
           PutText (''Car (Dynamic)'', 5 / 10) (0, - 10) (0, 0, 255),
           Rectangle (0, 0) (1200, 100) (0, 0, 255) 3,
           PutText (''Pedestrian (Dynamic)'', 5 / 10) (0, - 10) (0, 0, 255)],
          \<lparr> last_audio_time = 10025 / 10,
            stdout = [''[INIT] Loading Vantage Logic Core...'',
                      ''[SUCCESS] System Active. Press 'Q' to shutdown.'',
                      [CHR 0x0A]
                        @ ''>>> [BONE CONDUCTION AUDIO]: 'Warning! Pedestrian (Dynamic) ahead.' <<<''
                        @ [CHR 0x0A]],
            screen = [] \<rparr>)"
  by (simp add: process_box_def classify_def CONFIDENCE_THRESHOLD_def HAZARD_MAP_def
        sample_box_def py_int_def obj_width_def corners_def estimate_distance_def
        py_truediv_def annotate_def colour_def trigger_bone_conduction_def AUDIO_COOLDOWN_def
        warning_def init_def)

section \<open>Drawing is unconditional, speaking is gated\<close>

lemma accepted_drawn:
  assumes "width \<noteq> 0" and "classify (py_int (cls b)) (conf b) = Some label"
  shows "\<exists>d. estimate_distance (real_of_int (obj_width b)) (real_of_int width) = Inr d
           \<and> hazard width b = Some (label, d)"
proof -
  from assms(1) have w: "real_of_int width \<noteq> 0" by simp
  show ?thesis
    using assms(2) estimate_distance_band [OF w, of "real_of_int (obj_width b)"]
    by (simp add: hazard_def)
qed

text \<open>
  Claim C7 says that in every frame each detection that passes the filter is drawn. In a
  frame of width 0 the chair below passes the filter, and the frame raises at the
  division before anything is drawn.
\<close>

theorem annotation_needs_width_counterexample:
  "classify (py_int (cls (sample_box (9 / 10) 56 128))) (conf (sample_box (9 / 10) 56 128))
     = Some ''Obstacle (Chair)''
   \<and> for_results 0 [[(1000, sample_box (9 / 10) 56 128)]] ([], init) = Inl ZeroDivisionError"
  by (simp add: sample_box_def py_int_def classify_def CONFIDENCE_THRESHOLD_def HAZARD_MAP_def
        process_box_def estimate_distance_def py_truediv_def)

text \<open>
  Claim C7, amended. In a frame of non-zero width every detection that passes the filter
  puts its rectangle and its text on the frame, whatever its distance, and a frame whose
  accepted detections are all at the Safe distance leaves the audio state untouched:
  drawings, but no warning. A frame of width 0 raises at its first accepted detection and
  draws nothing.
\<close>

theorem annotation_drawn_safe_silent:
  "(width \<noteq> 0 \<longrightarrow>
     (\<exists>frame self'.
        for_results width results ([], self) = Inr (frame, self')
      \<and> frame = concat (map
            (\<lambda>tb. case hazard width (snd tb) of
                None \<Rightarrow> []
              | Some h \<Rightarrow>
                  (case corners (snd tb) of (x1, y1, x2, y2) \<Rightarrow>
                     [Rectangle (x1, y1) (x2, y2)
                        (if snd h < 2 then (0, 0, 255) else (0, 255, 0)) 3,
                      PutText h (x1, y1 - 10)
                        (if snd h < 2 then (0, 0, 255) else (0, 255, 0))]))
            (concat results))
      \<and> (\<forall>tb \<in> set (concat results). \<forall>label.
            classify (py_int (cls (snd tb))) (conf (snd tb)) = Some label \<longrightarrow>
            (\<exists>d. estimate_distance (real_of_int (obj_width (snd tb))) (real_of_int width) = Inr d
               \<and> (case corners (snd tb) of (x1, y1, x2, y2) \<Rightarrow>
                    Rectangle (x1, y1) (x2, y2)
                      (if d < 2 then (0, 0, 255) else (0, 255, 0)) 3 \<in> set frame
                  \<and> PutText (label, d) (x1, y1 - 10)
                      (if d < 2 then (0, 0, 255) else (0, 255, 0)) \<in> set frame)))
      \<and> ((\<forall>tb \<in> set (concat results). \<forall>h.
             hazard width (snd tb) = Some h \<longrightarrow> snd h = meters Safe) \<longrightarrow> self' = self)))
   \<and> (width = 0 \<longrightarrow>
        for_results width results ([], self)
          = (if \<exists>tb \<in> set (concat results).
                  classify (py_int (cls (snd tb))) (conf (snd tb)) \<noteq> None
             then Inl ZeroDivisionError else Inr ([], self)))"
proof (cases "width = 0")
  case True
  have "for_results 0 results ([], self)
          = (if \<exists>tb \<in> set (concat results).
                  classify (py_int (cls (snd tb))) (conf (snd tb)) \<noteq> None
             then Inl ZeroDivisionError else Inr ([], self))"
    using for_boxes_zero_width [of "concat results" "[]" self]
      for_boxes_zero_width_skip [of "concat results" "[]" self]
    by (auto simp: for_results_concat)
  with True show ?thesis by simp
next
  case False
  define F where "F = concat (map (drawn width \<circ> snd) (concat results))"
  have explicit: "F = concat (map
            (\<lambda>tb. case hazard width (snd tb) of
                None \<Rightarrow> []
              | Some h \<Rightarrow>
                  (case corners (snd tb) of (x1, y1, x2, y2) \<Rightarrow>
                     [Rectangle (x1, y1) (x2, y2)
                        (if snd h < 2 then (0, 0, 255) else (0, 255, 0)) 3,
                      PutText h (x1, y1 - 10)
                        (if snd h < 2 then (0, 0, 255) else (0, 255, 0))]))
            (concat results))"
    unfolding F_def by (simp add: drawn_explicit comp_def)
  obtain self' where run: "for_results width results ([], self) = Inr (F, self')"
    using for_boxes_drawn [OF False, of "concat results" "[]" self]
    by (auto simp: for_results_concat F_def)
  have safe: "(\<forall>tb \<in> set (concat results). \<forall>h.
             hazard width (snd tb) = Some h \<longrightarrow> snd h = meters Safe) \<longrightarrow> self' = self"
  proof
    assume "\<forall>tb \<in> set (concat results). \<forall>h. hazard width (snd tb) = Some h \<longrightarrow> snd h = meters Safe"
    then have "\<forall>tb \<in> set (concat results). \<not> eligible width (snd tb)"
      by (fastforce simp: eligible_def split: option.splits)
    from for_boxes_no_eligible [OF False this, of "[]" self] run show "self' = self"
      by (simp add: for_results_concat F_def)
  qed
  have each: "\<forall>tb \<in> set (concat results). \<forall>label.
            classify (py_int (cls (snd tb))) (conf (snd tb)) = Some label \<longrightarrow>
            (\<exists>d. estimate_distance (real_of_int (obj_width (snd tb))) (real_of_int width) = Inr d
               \<and> (case corners (snd tb) of (x1, y1, x2, y2) \<Rightarrow>
                    Rectangle (x1, y1) (x2, y2)
                      (if d < 2 then (0, 0, 255) else (0, 255, 0)) 3 \<in> set F
                  \<and> PutText (label, d) (x1, y1 - 10)
                      (if d < 2 then (0, 0, 255) else (0, 255, 0)) \<in> set F))"
  proof (intro ballI allI impI)
    fix tb label
    assume tb: "tb \<in> set (concat results)"
      and c: "classify (py_int (cls (snd tb))) (conf (snd tb)) = Some label"
    from accepted_drawn [OF False c] obtain d
      where e: "estimate_distance (real_of_int (obj_width (snd tb))) (real_of_int width) = Inr d"
        and h: "hazard width (snd tb) = Some (label, d)" by blast
    obtain x1 y1 x2 y2 where k: "corners (snd tb) = (x1, y1, x2, y2)"
      by (cases "corners (snd tb)") auto
    have "drawn width (snd tb)
            = [Rectangle (x1, y1) (x2, y2) (if d < 2 then (0, 0, 255) else (0, 255, 0)) 3,
               PutText (label, d) (x1, y1 - 10) (if d < 2 then (0, 0, 255) else (0, 255, 0))]"
      by (simp add: drawn_explicit h k)
    moreover have "set (drawn width (snd tb)) \<subseteq> set F"
      using tb unfolding F_def by auto
    ultimately have "Rectangle (x1, y1) (x2, y2) (if d < 2 then (0, 0, 255) else (0, 255, 0)) 3
                 \<in> set F"
      and "PutText (label, d) (x1, y1 - 10) (if d < 2 then (0, 0, 255) else (0, 255, 0))
                 \<in> set F"
      by auto
    with e k show "\<exists>d. estimate_distance (real_of_int (obj_width (snd tb))) (real_of_int width) = Inr d
               \<and> (case corners (snd tb) of (x1, y1, x2, y2) \<Rightarrow>
                    Rectangle (x1, y1) (x2, y2)
                      (if d < 2 then (0, 0, 255) else (0, 255, 0)) 3 \<in> set F
                  \<and> PutText (label, d) (x1, y1 - 10)
                      (if d < 2 then (0, 0, 255) else (0, 255, 0)) \<in> set F)"
      by auto
  qed
  from run explicit each safe have "\<exists>frame self'.
        for_results width results ([], self) = Inr (frame, self')
      \<and> frame = concat (map
            (\<lambda>tb. case hazard width (snd tb) of
                None \<Rightarrow> []
              | Some h \<Rightarrow>
                  (case corners (snd tb) of (x1, y1, x2, y2) \<Rightarrow>
                     [Rectangle (x1, y1) (x2, y2)
                        (if snd h < 2 then (0, 0, 255) else (0, 255, 0)) 3,
                      PutText h (x1, y1 - 10)
                        (if snd h < 2 then (0, 0, 255) else (0, 255, 0))]))
            (concat results))
      \<and> (\<forall>tb \<in> set (concat results). \<forall>label.
            classify (py_int (cls (snd tb))) (conf (snd tb)) = Some label \<longrightarrow>
            (\<exists>d. estimate_distance (real_of_int (obj_width (snd tb))) (real_of_int width) = Inr d
               \<and> (case corners (snd tb) of (x1, y1, x2, y2) \<Rightarrow>
                    Rectangle (x1, y1) (x2, y2)
                      (if d < 2 then (0, 0, 255) else (0, 255, 0)) 3 \<in> set frame
                  \<and> PutText (label, d) (x1, y1 - 10)
                      (if d < 2 then (0, 0, 255) else (0, 255, 0)) \<in> set frame)))
      \<and> ((\<forall>tb \<in> set (concat results). \<forall>h.
             hazard width (snd tb) = Some h \<longrightarrow> snd h = meters Safe) \<longrightarrow> self' = self)"
    by (intro exI [of _ F] exI [of _ self'] conjI) assumption+
  with False show ?thesis by simp
qed

theorem annotation_drawn_safe_silent_witness:
  "classify (py_int (cls (sample_box (9 / 10) 56 128))) (conf (sample_box (9 / 10) 56 128))
       = Some ''Obstacle (Chair)''
   \<and> hazard 1280 (sample_box (9 / 10) 56 128) = Some (''Obstacle (Chair)'', meters Safe)
   \<and> for_results 1280 [[(1000, sample_box (9 / 10) 56 128)]] ([], init)
       = Inr ([Rectangle (0, 0) (128, 100) (0, 255, 0) 3,
               PutText (''Obstacle (Chair)'', 3) (0, - 10) (0, 255, 0)], init)
   \<and> for_results 0 [[(1000, sample_box (9 / 10) 56 128)]] ([], init) = Inl ZeroDivisionError"
proof -
  have c: "classify (py_int (cls (sample_box (9 / 10) 56 128))) (conf (sample_box (9 / 10) 56 128))
             = Some ''Obstacle (Chair)''"
    by (simp add: sample_box_def py_int_def classify_def CONFIDENCE_THRESHOLD_def
          HAZARD_MAP_def)
  have w: "obj_width (sample_box (9 / 10) 56 128) = 128"
          "corners (sample_box (9 / 10) 56 128) = (0, 0, 128, 100)"
    by (simp_all add: obj_width_def corners_def sample_box_def py_int_def)
  have h: "hazard 1280 (sample_box (9 / 10) 56 128) = Some (''Obstacle (Chair)'', 3)"
    by (simp add: hazard_def c w estimate_distance_def py_truediv_def)
  show ?thesis
    using annotation_drawn_safe_silent
        [of 1280 "[[(1000, sample_box (9 / 10) 56 128)]]" init]
      annotation_drawn_safe_silent
        [of 0 "[[(1000, sample_box (9 / 10) 56 128)]]" init]
    by (auto simp: h c w)
qed

section \<open>Frame width zero or negative\<close>

lemma spec_band_nonpos: "r \<le> 0 \<Longrightarrow> spec_band r = Safe"
  by (simp add: spec_band_def)

text \<open>
  Claim C6 says that the heuristic fails with an InvalidInput error for every frame width
  \<open>\<le> 0\<close>, never divides by zero, and that the failure is local to the frame. The code
  has no guard: a negative frame width gives a result, a zero frame width raises
  ZeroDivisionError from the division itself, and the capture loop has no handler, so the
  second capture below is never processed.
\<close>

theorem estimate_unguarded_counterexample:
  "estimate_distance 100 (- 1280) = Inr 3
   \<and> estimate_distance 100 0 = Inl ZeroDivisionError
   \<and> run [\<lparr> cap_ok = True, cap_width = 0,
              cap_results = [[(1000, sample_box (9 / 10) 2 600)]], cap_q = False \<rparr>,
           \<lparr> cap_ok = True, cap_width = 1280,
              cap_results = [[(1001, sample_box (9 / 10) 2 600)]], cap_q = False \<rparr>] init
       = Crashed ZeroDivisionError"
  by (simp add: estimate_distance_def py_truediv_def process_box_def sample_box_def
        py_int_def classify_def CONFIDENCE_THRESHOLD_def HAZARD_MAP_def)

text \<open>
  Claim C6, amended. The heuristic raises exactly when the frame width is 0, and the
  error is ZeroDivisionError; for every other frame width, negative ones included, it
  returns the meters of the band of the ratio (Safe for a negative frame width and a box
  width of at least 0). The capture loop does not catch the error: a capture of width 0
  with a detection that passes the filter ends \<open>run\<close>.
\<close>

theorem estimate_raises_only_on_zero_width:
  "(estimate_distance box_width frame_width = Inl ZeroDivisionError \<longleftrightarrow> frame_width = 0)
   \<and> (frame_width \<noteq> 0 \<longrightarrow>
        estimate_distance box_width frame_width
          = Inr (meters (spec_band (box_width / frame_width))))
   \<and> (frame_width < 0 \<and> 0 \<le> box_width \<longrightarrow>
        estimate_distance box_width frame_width = Inr (meters Safe))
   \<and> (cap_ok c \<and> cap_width c = 0
        \<and> (\<exists>tb \<in> set (concat (cap_results c)).
              classify (py_int (cls (snd tb))) (conf (snd tb)) \<noteq> None) \<longrightarrow>
        run (c # cs) self = Crashed ZeroDivisionError)"
proof -
  have zero: "estimate_distance box_width frame_width = Inl ZeroDivisionError \<longleftrightarrow> frame_width = 0"
    by (simp add: estimate_distance_def py_truediv_def)
  have neg: "frame_width < 0 \<and> 0 \<le> box_width \<longrightarrow>
        estimate_distance box_width frame_width = Inr (meters Safe)"
  proof
    assume a: "frame_width < 0 \<and> 0 \<le> box_width"
    then have "box_width / frame_width \<le> 0"
      by (simp add: divide_nonneg_neg)
    then have "spec_band (box_width / frame_width) = Safe"
      by (rule spec_band_nonpos)
    with a show "estimate_distance box_width frame_width = Inr (meters Safe)"
      by (simp add: estimate_distance_band)
  qed
  have crash: "cap_ok c \<and> cap_width c = 0
        \<and> (\<exists>tb \<in> set (concat (cap_results c)).
              classify (py_int (cls (snd tb))) (conf (snd tb)) \<noteq> None) \<longrightarrow>
        run (c # cs) self = Crashed ZeroDivisionError"
    using for_boxes_zero_width [of "concat (cap_results c)" "[]" self]
    by (auto simp: for_results_concat)
  from zero neg crash show ?thesis
    by (simp add: estimate_distance_band)
qed

theorem estimate_raises_only_on_zero_width_witness:
  "estimate_distance 100 0 = Inl ZeroDivisionError
   \<and> estimate_distance 100 (- 1280) = Inr (meters Safe)
   \<and> run [\<lparr> cap_ok = True, cap_width = 0,
              cap_results = [[(1000, sample_box (9 / 10) 2 600)]], cap_q = False \<rparr>] init
       = Crashed ZeroDivisionError"
  using estimate_raises_only_on_zero_width [of 100 0]
    estimate_raises_only_on_zero_width [of 100 "- 1280"]
    estimate_raises_only_on_zero_width [of _ _
      "\<lparr> cap_ok = True, cap_width = 0,
         cap_results = [[(1000, sample_box (9 / 10) 2 600)]], cap_q = False \<rparr>" "[]" init]
  by (simp add: sample_box_def py_int_def classify_def CONFIDENCE_THRESHOLD_def HAZARD_MAP_def)

end
